theory Spec2Isabelle
  imports Complex_Main "HOL-Library.Multiset"
begin

section \<open>Superposition memory: the data model\<close>

text \<open>
  The development embeds the method \<^verbatim>\<open>collapse\<close> of
  \<^verbatim>\<open>src/models/superposition_memory.py\<close> and the data it reads.

  A Python \<^verbatim>\<open>dict\<close> iterates in insertion order, and \<^verbatim>\<open>collapse\<close>
  visits the stored items in that order, so the mapping is an association list.

  Python's \<^verbatim>\<open>float\<close> and \<^verbatim>\<open>complex\<close> are written as \<^typ>\<open>real\<close>
  and \<^typ>\<open>complex\<close>. The source computes in double precision, where a product
  can round, underflow, overflow or be NaN. The theorems below are about the guard
  on the empty mapping, about the returned hypothesis being a stored entry and the
  state being left as it was, and about the way the context is folded into the weight
  map. They say nothing about the numeric value a score has in double precision or
  about which entry wins.
\<close>

type_synonym dict = "(string \<times> complex) list"

definition dict_get :: "dict \<Rightarrow> string \<Rightarrow> complex option" where
  "dict_get d k = map_of d k"

text \<open>The representation invariant of a dictionary: every key occurs once.\<close>

definition is_dict :: "dict \<Rightarrow> bool" where
  "is_dict d = distinct (map fst d)"

datatype error = ValueError string | IndexError

text \<open>The frozen dataclass \<^verbatim>\<open>Hypothesis\<close> and its derived property.\<close>

record Hypothesis =
  label :: string
  amplitude :: complex

definition probability :: "Hypothesis \<Rightarrow> real" where
  "probability h = Re (cnj (amplitude h) * amplitude h)"

record SuperpositionMemory =
  hypotheses :: dict

definition init :: SuperpositionMemory where
  "init = \<lparr>hypotheses = []\<rparr>"

subsection \<open>Sorting\<close>

text \<open>
  \<^verbatim>\<open>list.sort(key=..., reverse=True)\<close> is a stable sort by descending key:
  elements with equal keys keep their order. A stable sort has one possible
  result (lemma \<open>sort_reverse_unique\<close> below), so insertion sort stands for it: an
  element is put in front of the first element whose key is not greater than its
  own, and the elements are inserted from the right.
\<close>

primrec insort_reverse :: "('a \<Rightarrow> 'k::linorder) \<Rightarrow> 'a \<Rightarrow> 'a list \<Rightarrow> 'a list" where
  "insort_reverse key x [] = [x]"
| "insort_reverse key x (y # ys) =
     (if key y \<le> key x then x # y # ys else y # insort_reverse key x ys)"

definition sort_reverse :: "('a \<Rightarrow> 'k::linorder) \<Rightarrow> 'a list \<Rightarrow> 'a list" where
  "sort_reverse key xs = foldr (insort_reverse key) xs []"

subsection \<open>Collapse\<close>

text \<open>
  \<^verbatim>\<open>collapse\<close> may raise. Its model returns the outcome (the exception or the
  value) together with the state the object is left in.
\<close>

definition weight_map :: "(string \<times> real) list \<Rightarrow> (string \<rightharpoonup> real)" where
  "weight_map context = fold (\<lambda>(lbl, weight) m. m(lbl \<mapsto> weight)) context Map.empty"

definition score :: "(string \<rightharpoonup> real) \<Rightarrow> string \<Rightarrow> complex \<Rightarrow> real" where
  "score wm lbl amp =
     (let probability = Re (cnj amp * amp);
          weight = (case wm lbl of Some w \<Rightarrow> w | None \<Rightarrow> 0)
      in probability * (1 + weight))"

definition scored :: "(string \<rightharpoonup> real) \<Rightarrow> dict \<Rightarrow> (real \<times> Hypothesis) list" where
  "scored wm d = map (\<lambda>(lbl, amp). (score wm lbl amp, \<lparr>label = lbl, amplitude = amp\<rparr>)) d"

definition collapse ::
  "SuperpositionMemory \<Rightarrow> (string \<times> real) list \<Rightarrow> (error + Hypothesis) \<times> SuperpositionMemory" where
  "collapse self context =
     (if hypotheses self = []
      then (Inl (ValueError ''Cannot collapse an empty superposition state''), self)
      else
        (case sort_reverse fst (scored (weight_map context) (hypotheses self)) of
           [] \<Rightarrow> (Inl IndexError, self)
         | item # _ \<Rightarrow> (Inr (snd item), self)))"

section \<open>Sorting lemmas\<close>

lemma sort_reverse_Nil [simp]: "sort_reverse key [] = []"
  by (simp add: sort_reverse_def)

lemma sort_reverse_Cons [simp]:
  "sort_reverse key (x # xs) = insort_reverse key x (sort_reverse key xs)"
  by (simp add: sort_reverse_def)

lemma insort_reverse_nonempty [simp]: "insort_reverse key x ys \<noteq> []"
  by (cases ys) simp_all

lemma sort_reverse_eq_Nil [simp]: "sort_reverse key xs = [] \<longleftrightarrow> xs = []"
  by (cases xs) simp_all

lemma set_insort_reverse: "set (insort_reverse key x ys) = insert x (set ys)"
  by (induction ys) auto

lemma set_sort_reverse: "set (sort_reverse key xs) = set xs"
  by (induction xs) (simp_all add: set_insort_reverse)

lemma hd_sort_reverse_mem: "xs \<noteq> [] \<Longrightarrow> hd (sort_reverse key xs) \<in> set xs"
proof -
  assume "xs \<noteq> []"
  then have "sort_reverse key xs \<noteq> []" by simp
  then have "hd (sort_reverse key xs) \<in> set (sort_reverse key xs)" by (rule hd_in_set)
  then show ?thesis by (simp only: set_sort_reverse)
qed

lemma mset_sort_reverse: "mset (sort_reverse key xs) = mset xs"
proof (induction xs)
  case (Cons x xs)
  have "mset (insort_reverse key x ys) = add_mset x (mset ys)" for ys
    by (induction ys) simp_all
  with Cons show ?case by simp
qed simp

lemma sorted_wrt_insort_reverse:
  "sorted_wrt (\<lambda>a b. key b \<le> key a) ys \<Longrightarrow>
   sorted_wrt (\<lambda>a b. key b \<le> key a) (insort_reverse key x ys)"
  by (induction ys) (auto simp: set_insort_reverse)

lemma sorted_wrt_sort_reverse: "sorted_wrt (\<lambda>a b. key b \<le> key a) (sort_reverse key xs)"
  by (induction xs) (simp_all add: sorted_wrt_insort_reverse)

lemma filter_insort_reverse:
  "sorted_wrt (\<lambda>a b. key b \<le> key a) ys \<Longrightarrow>
   filter (\<lambda>y. key y = k) (insort_reverse key x ys) =
     (if key x = k then x # filter (\<lambda>y. key y = k) ys else filter (\<lambda>y. key y = k) ys)"
  by (induction ys) (auto simp: filter_empty_conv)

lemma sort_reverse_stable:
  "filter (\<lambda>y. key y = k) (sort_reverse key xs) = filter (\<lambda>y. key y = k) xs"
  by (induction xs) (simp_all add: filter_insort_reverse sorted_wrt_sort_reverse)

text \<open>
  For real keys the result of \<^const>\<open>sort_reverse\<close> is the only list that is a
  permutation of the input, descending in the key, and stable. Any stable sorting
  algorithm therefore returns it.
\<close>

lemma insort_reverse_insort_key:
  fixes key :: "'a \<Rightarrow> real"
  shows "insort_reverse key x ys = insort_key (\<lambda>y. - key y) x ys"
  by (induction ys) simp_all

lemma sort_reverse_sort_key:
  fixes key :: "'a \<Rightarrow> real"
  shows "sort_reverse key xs = sort_key (\<lambda>y. - key y) xs"
  by (induction xs) (simp_all add: insort_reverse_insort_key)

lemma sort_reverse_unique:
  fixes key :: "'a \<Rightarrow> real"
  assumes perm: "mset ys = mset xs"
    and desc: "sorted_wrt (\<lambda>a b. key b \<le> key a) ys"
    and stable: "\<And>k. filter (\<lambda>y. key y = k) ys = filter (\<lambda>y. key y = k) xs"
  shows "sort_reverse key xs = ys"
proof -
  have 1: "sorted (map (\<lambda>y. - key y) ys)"
    using desc by (simp add: sorted_map)
  have 2: "filter (\<lambda>x. - key k = - key x) ys = filter (\<lambda>x. - key k = - key x) xs" for k
    using stable [of "key k"] by (simp add: eq_commute)
  have "sort_key (\<lambda>y. - key y) xs = ys"
    using perm 2 1 by (rule properties_for_sort_key)
  then show ?thesis by (simp add: sort_reverse_sort_key)
qed

section \<open>Collapse lemmas\<close>

lemma scored_eq_Nil [simp]: "scored wm d = [] \<longleftrightarrow> d = []"
  by (simp add: scored_def)

lemma collapse_nonempty:
  "hypotheses m \<noteq> [] \<Longrightarrow>
     collapse m ctx = (Inr (snd (hd (sort_reverse fst (scored (weight_map ctx) (hypotheses m))))), m)"
  by (cases "sort_reverse fst (scored (weight_map ctx) (hypotheses m))") (simp_all add: collapse_def)

lemma collapse_empty:
  "hypotheses m = [] \<Longrightarrow>
     collapse m ctx = (Inl (ValueError ''Cannot collapse an empty superposition state''), m)"
  by (simp add: collapse_def)

lemma weight_map_fold:
  "fold (\<lambda>(lbl, weight) m. m(lbl \<mapsto> weight)) ctx m0 = m0 ++ map_of (rev ctx)"
proof (induction ctx arbitrary: m0)
  case Nil
  then show ?case by simp
next
  case (Cons p ctx)
  obtain l w where p: "p = (l, w)" by (cases p)
  have "fold (\<lambda>(lbl, weight) m. m(lbl \<mapsto> weight)) (p # ctx) m0 =
        fold (\<lambda>(lbl, weight) m. m(lbl \<mapsto> weight)) ctx (m0(l \<mapsto> w))"
    unfolding p by simp
  also have "\<dots> = m0(l \<mapsto> w) ++ map_of (rev ctx)"
    by (rule Cons.IH)
  also have "\<dots> = m0 ++ map_of (rev (p # ctx))"
    by (rule ext) (simp add: p map_add_def split: option.splits)
  finally show ?case .
qed

lemma weight_map_rev: "weight_map ctx = map_of (rev ctx)"
  by (simp add: weight_map_def weight_map_fold)

lemma weight_map_None: "weight_map ctx l = None \<longleftrightarrow> l \<notin> fst ` set ctx"
  by (simp add: weight_map_rev map_of_eq_None_iff)

lemma weight_map_Some: "weight_map ctx l = Some w \<Longrightarrow> (l, w) \<in> set ctx"
  using map_of_SomeD [of "rev ctx" l w] by (simp add: weight_map_rev)







lemma collapse_returns_stored:
  assumes "hypotheses m \<noteq> []"
  shows "\<exists>l a. (l, a) \<in> set (hypotheses m) \<and>
           collapse m ctx = (Inr \<lparr>label = l, amplitude = a\<rparr>, m)"
proof -
  let ?items = "scored (weight_map ctx) (hypotheses m)"
  have "?items \<noteq> []" using assms by simp
  then have "hd (sort_reverse fst ?items) \<in> set ?items" by (rule hd_sort_reverse_mem)
  then obtain p where p: "p \<in> set (hypotheses m)"
    and w: "hd (sort_reverse fst ?items) =
      (case p of (lbl, amp) \<Rightarrow> (score (weight_map ctx) lbl amp, \<lparr>label = lbl, amplitude = amp\<rparr>))"
    unfolding scored_def by auto
  obtain l a where la: "p = (l, a)" by (cases p)
  have "snd (hd (sort_reverse fst ?items)) = \<lparr>label = l, amplitude = a\<rparr>"
    by (simp add: w la)
  then have "collapse m ctx = (Inr \<lparr>label = l, amplitude = a\<rparr>, m)"
    using collapse_nonempty [OF assms, of ctx] by simp
  with p la show ?thesis by blast
qed

lemma collapse_state: "snd (collapse m ctx) = m"
  by (cases "hypotheses m = []") (simp_all add: collapse_empty collapse_nonempty)

lemma dict_get_distinct:
  "is_dict d \<Longrightarrow> (l, a) \<in> set d \<Longrightarrow> dict_get d l = Some a"
  by (simp add: is_dict_def dict_get_def)

section \<open>Claims about \<^verbatim>\<open>collapse\<close>\<close>

text \<open>
  Claim C5. \<^verbatim>\<open>collapse(context)\<close> raises the empty-state error exactly when
  the memory holds no hypotheses, whatever the context is, and it returns a hypothesis
  exactly when the memory holds one. In particular a non-empty memory whose amplitudes
  are all zero does not make \<^verbatim>\<open>collapse\<close> fail.
\<close>

theorem collapse_raises_iff_no_hypotheses:
  "(fst (collapse m ctx) = Inl (ValueError ''Cannot collapse an empty superposition state''))
      = (hypotheses m = []) \<and>
   (\<exists>h. fst (collapse m ctx) = Inr h) = (hypotheses m \<noteq> []) \<and>
   (hypotheses m \<noteq> [] \<and> (\<forall>a\<in>snd ` set (hypotheses m). a = 0)
      \<longrightarrow> (\<exists>h. fst (collapse m ctx) = Inr h))"
  by (cases "hypotheses m = []") (simp_all add: collapse_empty collapse_nonempty)

theorem collapse_raises_iff_no_hypotheses_witness:
  "hypotheses \<lparr>hypotheses = [(''A'', 0), (''B'', 0)]\<rparr> \<noteq> [] \<and>
   snd ` set (hypotheses \<lparr>hypotheses = [(''A'', 0), (''B'', 0)]\<rparr>) = {0} \<and>
   (\<exists>h. fst (collapse \<lparr>hypotheses = [(''A'', 0), (''B'', 0)]\<rparr> [(''B'', 1)]) = Inr h) \<and>
   fst (collapse init []) = Inl (ValueError ''Cannot collapse an empty superposition state'')"
  using collapse_raises_iff_no_hypotheses [of "\<lparr>hypotheses = [(''A'', 0), (''B'', 0)]\<rparr>" "[(''B'', 1)]"]
    collapse_raises_iff_no_hypotheses [of init "[]"]
  by (simp add: init_def)

text \<open>
  Claim C8. \<^verbatim>\<open>collapse\<close> leaves the stored mapping as it was. On a
  non-empty memory the hypothesis it returns is a stored entry: its amplitude is the
  amplitude stored under the winning label, neither new nor rescaled.
\<close>

theorem collapse_non_destructive:
  "snd (collapse m ctx) = m \<and>
   (hypotheses m \<noteq> [] \<longrightarrow>
      (\<exists>h. collapse m ctx = (Inr h, m) \<and> (label h, amplitude h) \<in> set (hypotheses m) \<and>
           (is_dict (hypotheses m) \<longrightarrow> dict_get (hypotheses m) (label h) = Some (amplitude h))))"
proof (intro conjI impI)
  show "snd (collapse m ctx) = m" by (rule collapse_state)
next
  assume "hypotheses m \<noteq> []"
  from collapse_returns_stored [OF this, of ctx] obtain l a where
    mem: "(l, a) \<in> set (hypotheses m)"
    and c: "collapse m ctx = (Inr \<lparr>label = l, amplitude = a\<rparr>, m)"
    by blast
  show "\<exists>h. collapse m ctx = (Inr h, m) \<and> (label h, amplitude h) \<in> set (hypotheses m) \<and>
           (is_dict (hypotheses m) \<longrightarrow> dict_get (hypotheses m) (label h) = Some (amplitude h))"
    using c mem dict_get_distinct [OF _ mem]
    by (intro exI [of _ "\<lparr>label = l, amplitude = a\<rparr>"]) simp
qed

theorem collapse_non_destructive_witness:
  "hypotheses \<lparr>hypotheses = [(''A'', 1), (''B'', 2)]\<rparr> \<noteq> [] \<and>
   is_dict (hypotheses \<lparr>hypotheses = [(''A'', 1), (''B'', 2)]\<rparr>) \<and>
   (\<exists>h. collapse \<lparr>hypotheses = [(''A'', 1), (''B'', 2)]\<rparr> [(''A'', 7)] =
          (Inr h, \<lparr>hypotheses = [(''A'', 1), (''B'', 2)]\<rparr>) \<and>
        dict_get [(''A'', 1), (''B'', 2)] (label h) = Some (amplitude h))"
proof -
  let ?m = "\<lparr>hypotheses = [(''A'', 1), (''B'', 2)]\<rparr>"
  have 1: "hypotheses ?m \<noteq> []" by simp
  have 2: "is_dict (hypotheses ?m)" by (simp add: is_dict_def)
  from collapse_non_destructive [of ?m "[(''A'', 7)]"] 1 2
  have "\<exists>h. collapse ?m [(''A'', 7)] = (Inr h, ?m) \<and>
        dict_get (hypotheses ?m) (label h) = Some (amplitude h)"
    by blast
  with 1 2 show ?thesis by simp
qed




end
